theory Spec2Isabelle
  imports Complex_Main
begin

section \<open>The polling loops of \<open>LeonardoClient\<close> (leonardo\_cli.py)\<close>

text \<open>
  The three methods \<open>wait_for_generation\<close>, \<open>wait_for_motion_generation\<close> and
  \<open>wait_for_variation\<close> poll a status endpoint until the job is complete or a time
  budget is used up. They read the clock, call the HTTP client, sleep and update a
  progress display. The embedding makes these effects explicit:

  \<^item> the clock is a virtual one, a \<open>real\<close> number of seconds, that only
    \<open>time.sleep\<close> advances, by exactly its argument; a status fetch and a progress
    update take no time on it;
  \<^item> the remote side is a function from the URL requested and the number of requests
    made before it to the response: the parsed JSON object (\<open>Inr\<close>), or an exception
    (\<open>Inl\<close>, with the text of \<open>str(e)\<close>) raised by the \<open>get_*\<close> method or by
    \<open>.get\<close> on a body that is not an object;
  \<^item> an exception that leaves a method is \<open>Exception(msg)\<close>: the result \<open>Inl msg\<close>; a
    returned record is the result \<open>Inr record\<close>;
  \<^item> the timeout is an \<open>int\<close>, as the signatures and the command line options have it;
  \<^item> the URLs requested, the durations slept and the descriptions given to the progress
    display are logged in the state.
\<close>

subsection \<open>Values, dictionaries and formatting\<close>

text \<open>
  A value of a JSON object: a \<open>str\<close>, or anything else (\<open>None\<close>, a number, a list, a
  nested object), kept with the text that Python's \<open>str()\<close> gives for it. A value that
  is not a \<open>str\<close> is never equal to a \<open>str\<close>.
\<close>

datatype pyval = Str string | NonStr string

type_synonym dict = "string \<rightharpoonup> pyval"

text \<open>\<open>d.get(k, default)\<close>\<close>

definition dict_get :: "dict \<Rightarrow> string \<Rightarrow> pyval \<Rightarrow> pyval" where
  "dict_get d k dflt = (case d k of None \<Rightarrow> dflt | Some v \<Rightarrow> v)"

text \<open>The text an f-string puts in for a value, \<open>str(v)\<close>.\<close>

fun py_str :: "pyval \<Rightarrow> string" where
  "py_str (Str s) = s"
| "py_str (NonStr s) = s"

text \<open>\<open>int(x)\<close> of a float: truncation towards zero.\<close>

definition py_int :: "real \<Rightarrow> int" where
  "py_int x = (if 0 \<le> x then \<lfloor>x\<rfloor> else \<lceil>x\<rceil>)"

text \<open>The decimal text of an \<open>int\<close>, as an f-string formats it.\<close>

definition digit :: "nat \<Rightarrow> char" where
  "digit n = ''0123456789'' ! n"

fun str_nat :: "nat \<Rightarrow> string" where
  "str_nat n = (if n < 10 then [digit n] else str_nat (n div 10) @ [digit (n mod 10)])"

declare str_nat.simps [simp del]

definition str_int :: "int \<Rightarrow> string" where
  "str_int i = (if i < 0 then CHR ''-'' # str_nat (nat (- i)) else str_nat (nat i))"

subsection \<open>The environment and the effects\<close>

type_synonym response = "string + dict"

record env =
  server :: "string \<Rightarrow> nat \<Rightarrow> response"

record world =
  now :: real
  requests :: "string list"
  sleeps :: "real list"
  progress :: "(int option \<times> string) list"

text \<open>\<open>time.sleep(d)\<close>\<close>

definition sleep :: "real \<Rightarrow> world \<Rightarrow> world" where
  "sleep d w = w\<lparr>now := now w + d, sleeps := sleeps w @ [d]\<rparr>"

text \<open>
  \<open>progress.add_task(description)\<close> and \<open>progress.update(task, description=...)\<close>: the
  description is logged, together with the value of \<open>elapsed\<close> when the description
  is built from it.
\<close>

definition progress_update :: "int option \<Rightarrow> string \<Rightarrow> world \<Rightarrow> world" where
  "progress_update el d w = w\<lparr>progress := progress w @ [(el, d)]\<rparr>"

definition http_get :: "env \<Rightarrow> string \<Rightarrow> world \<Rightarrow> response \<times> world" where
  "http_get e url w = (server e url (length (requests w)), w\<lparr>requests := requests w @ [url]\<rparr>)"

definition API_BASE_URL :: string where
  "API_BASE_URL = ''https://cloud.leonardo.ai/api/rest/v1''"

subsection \<open>\<open>get_generation\<close> and \<open>wait_for_generation\<close>\<close>

definition generation_url :: "string \<Rightarrow> string" where
  "generation_url generation_id = API_BASE_URL @ ''/generations/'' @ generation_id"

definition get_generation :: "env \<Rightarrow> string \<Rightarrow> world \<Rightarrow> response \<times> world" where
  "get_generation e generation_id w = http_get e (generation_url generation_id) w"

text \<open>
  The \<open>try\<close> block of the loop body. Its result is \<open>Inl msg\<close> when an exception is
  raised in it, \<open>Inr (Some generation)\<close> when it executes \<open>return generation\<close>, and
  \<open>Inr None\<close> when control reaches its end.
\<close>

definition generation_try ::
  "env \<Rightarrow> string \<Rightarrow> real \<Rightarrow> world \<Rightarrow> (string + dict option) \<times> world" where
  "generation_try e generation_id start_time w =
     (case get_generation e generation_id w of
        (Inl err, w1) \<Rightarrow> (Inl err, w1)
      | (Inr generation, w1) \<Rightarrow>
          let status = dict_get generation ''status'' (Str '''') in
          if status = Str ''COMPLETE'' then
            (Inr (Some generation), progress_update None ''[green]Generation complete!'' w1)
          else if status = Str ''FAILED'' then
            (Inl (''Generation failed: '' @ py_str (dict_get generation ''error'' (Str ''Unknown error''))),
             progress_update None ''[red]Generation failed!'' w1)
          else
            let elapsed = py_int (now w1 - start_time);
                w2 = progress_update (Some elapsed)
                       (''[yellow]Waiting for generation... ('' @ str_int elapsed @ ''s)'') w1
            in (Inr None, sleep 3 w2))"

text \<open>
  One iteration: the \<open>try\<close> block under its handler \<open>except Exception as e\<close>. The
  result is \<open>Some generation\<close> when the method returns, \<open>None\<close> when the loop goes on.
\<close>

definition generation_body ::
  "env \<Rightarrow> string \<Rightarrow> real \<Rightarrow> world \<Rightarrow> dict option \<times> world" where
  "generation_body e generation_id start_time w =
     (case generation_try e generation_id start_time w of
        (Inl err, w1) \<Rightarrow>
          (None, sleep 5 (progress_update None (''[red]Error checking status: '' @ err) w1))
      | (Inr r, w1) \<Rightarrow> (r, w1))"

lemma generation_body_now:
  "generation_body e g st w = (None, w') \<Longrightarrow> now w + 3 \<le> now w'"
  by (auto simp: generation_body_def generation_try_def get_generation_def http_get_def
        sleep_def progress_update_def Let_def split: prod.splits sum.splits if_splits)

function generation_loop ::
  "env \<Rightarrow> string \<Rightarrow> int \<Rightarrow> real \<Rightarrow> world \<Rightarrow> (string + dict) \<times> world" where
  "generation_loop e generation_id timeout start_time w =
     (if now w - start_time < real_of_int timeout then
        (case generation_body e generation_id start_time w of
           (Some generation, w1) \<Rightarrow> (Inr generation, w1)
         | (None, w1) \<Rightarrow> generation_loop e generation_id timeout start_time w1)
      else
        (Inl (''Generation timed out after '' @ str_int timeout @ '' seconds''),
         progress_update None ''[red]Generation timed out!'' w))"
  by pat_completeness auto
termination
  apply (relation "measure (\<lambda>(e, g, timeout, st, w). nat \<lceil>real_of_int timeout - (now w - st)\<rceil>)")
   apply simp
  apply (drule sym, drule sym)
  apply simp
  apply (drule generation_body_now)
  apply linarith
  done

declare generation_loop.simps [simp del]

text \<open>
  \<open>wait_for_generation(generation_id, timeout)\<close>, called when the clock reads \<open>t0\<close>.
\<close>

definition wait_for_generation ::
  "env \<Rightarrow> string \<Rightarrow> int \<Rightarrow> real \<Rightarrow> (string + dict) \<times> world" where
  "wait_for_generation e generation_id timeout t0 =
     (let start_time = t0;
          w = \<lparr>now = t0, requests = [], sleeps = [],
               progress = [(None, ''[yellow]Waiting for generation...'')]\<rparr>
      in generation_loop e generation_id timeout start_time w)"

text \<open>The call with \<open>timeout\<close> left out: the default of the signature.\<close>

definition wait_for_generation_default ::
  "env \<Rightarrow> string \<Rightarrow> real \<Rightarrow> (string + dict) \<times> world" where
  "wait_for_generation_default e generation_id t0 = wait_for_generation e generation_id 120 t0"

subsection \<open>\<open>get_motion_generation\<close> and \<open>wait_for_motion_generation\<close>\<close>

definition motion_generation_url :: "string \<Rightarrow> string" where
  "motion_generation_url generation_id =
     API_BASE_URL @ ''/generations-motion-svd/'' @ generation_id"

definition get_motion_generation :: "env \<Rightarrow> string \<Rightarrow> world \<Rightarrow> response \<times> world" where
  "get_motion_generation e generation_id w = http_get e (motion_generation_url generation_id) w"

definition motion_try ::
  "env \<Rightarrow> string \<Rightarrow> real \<Rightarrow> world \<Rightarrow> (string + dict option) \<times> world" where
  "motion_try e generation_id start_time w =
     (case get_motion_generation e generation_id w of
        (Inl err, w1) \<Rightarrow> (Inl err, w1)
      | (Inr generation, w1) \<Rightarrow>
          let status = dict_get generation ''status'' (Str '''') in
          if status = Str ''COMPLETE'' then
            (Inr (Some generation), progress_update None ''[green]Video generation complete!'' w1)
          else if status = Str ''FAILED'' then
            (Inl (''Generation failed: '' @ py_str (dict_get generation ''error'' (Str ''Unknown error''))),
             progress_update None ''[red]Video generation failed!'' w1)
          else
            let elapsed = py_int (now w1 - start_time);
                w2 = progress_update (Some elapsed)
                       (''[yellow]Waiting for video generation... ('' @ str_int elapsed @ ''s)'') w1
            in (Inr None, sleep 3 w2))"

definition motion_body ::
  "env \<Rightarrow> string \<Rightarrow> real \<Rightarrow> world \<Rightarrow> dict option \<times> world" where
  "motion_body e generation_id start_time w =
     (case motion_try e generation_id start_time w of
        (Inl err, w1) \<Rightarrow>
          (None, sleep 5 (progress_update None (''[red]Error checking status: '' @ err) w1))
      | (Inr r, w1) \<Rightarrow> (r, w1))"

lemma motion_body_now:
  "motion_body e g st w = (None, w') \<Longrightarrow> now w + 3 \<le> now w'"
  by (auto simp: motion_body_def motion_try_def get_motion_generation_def http_get_def
        sleep_def progress_update_def Let_def split: prod.splits sum.splits if_splits)

function motion_loop ::
  "env \<Rightarrow> string \<Rightarrow> int \<Rightarrow> real \<Rightarrow> world \<Rightarrow> (string + dict) \<times> world" where
  "motion_loop e generation_id timeout start_time w =
     (if now w - start_time < real_of_int timeout then
        (case motion_body e generation_id start_time w of
           (Some generation, w1) \<Rightarrow> (Inr generation, w1)
         | (None, w1) \<Rightarrow> motion_loop e generation_id timeout start_time w1)
      else
        (Inl (''Motion generation timed out after '' @ str_int timeout @ '' seconds''),
         progress_update None ''[red]Video generation timed out!'' w))"
  by pat_completeness auto
termination
  apply (relation "measure (\<lambda>(e, g, timeout, st, w). nat \<lceil>real_of_int timeout - (now w - st)\<rceil>)")
   apply simp
  apply (drule sym, drule sym)
  apply simp
  apply (drule motion_body_now)
  apply linarith
  done

declare motion_loop.simps [simp del]

definition wait_for_motion_generation ::
  "env \<Rightarrow> string \<Rightarrow> int \<Rightarrow> real \<Rightarrow> (string + dict) \<times> world" where
  "wait_for_motion_generation e generation_id timeout t0 =
     (let start_time = t0;
          w = \<lparr>now = t0, requests = [], sleeps = [],
               progress = [(None, ''[yellow]Waiting for video generation...'')]\<rparr>
      in motion_loop e generation_id timeout start_time w)"

definition wait_for_motion_generation_default ::
  "env \<Rightarrow> string \<Rightarrow> real \<Rightarrow> (string + dict) \<times> world" where
  "wait_for_motion_generation_default e generation_id t0 =
     wait_for_motion_generation e generation_id 300 t0"

subsection \<open>\<open>get_variation\<close> and \<open>wait_for_variation\<close>\<close>

text \<open>
  \<open>str.capitalize()\<close> on ASCII text: the first character in upper case, the others in
  lower case. A \<open>char\<close> is a byte here, and bytes outside the ASCII letters are kept.
\<close>

definition upper_char :: "char \<Rightarrow> char" where
  "upper_char c =
     (case map_of (zip ''abcdefghijklmnopqrstuvwxyz'' ''ABCDEFGHIJKLMNOPQRSTUVWXYZ'') c of
        None \<Rightarrow> c | Some u \<Rightarrow> u)"

definition lower_char :: "char \<Rightarrow> char" where
  "lower_char c =
     (case map_of (zip ''ABCDEFGHIJKLMNOPQRSTUVWXYZ'' ''abcdefghijklmnopqrstuvwxyz'') c of
        None \<Rightarrow> c | Some l \<Rightarrow> l)"

fun capitalize :: "string \<Rightarrow> string" where
  "capitalize [] = []"
| "capitalize (c # cs) = upper_char c # map lower_char cs"

definition variation_url :: "string \<Rightarrow> string \<Rightarrow> string" where
  "variation_url variation_id variation_type =
     API_BASE_URL @ ''/variations/'' @ variation_type @ ''/'' @ variation_id"

definition get_variation :: "env \<Rightarrow> string \<Rightarrow> string \<Rightarrow> world \<Rightarrow> response \<times> world" where
  "get_variation e variation_id variation_type w =
     http_get e (variation_url variation_id variation_type) w"

definition variation_try ::
  "env \<Rightarrow> string \<Rightarrow> string \<Rightarrow> real \<Rightarrow> world \<Rightarrow> (string + dict option) \<times> world" where
  "variation_try e variation_id variation_type start_time w =
     (case get_variation e variation_id variation_type w of
        (Inl err, w1) \<Rightarrow> (Inl err, w1)
      | (Inr variation, w1) \<Rightarrow>
          let status = dict_get variation ''status'' (Str '''') in
          if status = Str ''COMPLETE'' then
            (Inr (Some variation),
             progress_update None (''[green]'' @ capitalize variation_type @ '' complete!'') w1)
          else if status = Str ''FAILED'' then
            (Inl (''Variation failed: '' @ py_str (dict_get variation ''error'' (Str ''Unknown error''))),
             progress_update None (''[red]'' @ capitalize variation_type @ '' failed!'') w1)
          else
            let elapsed = py_int (now w1 - start_time);
                w2 = progress_update (Some elapsed)
                       (''[yellow]Waiting for '' @ variation_type @ '' to complete... (''
                          @ str_int elapsed @ ''s)'') w1
            in (Inr None, sleep 3 w2))"

definition variation_body ::
  "env \<Rightarrow> string \<Rightarrow> string \<Rightarrow> real \<Rightarrow> world \<Rightarrow> dict option \<times> world" where
  "variation_body e variation_id variation_type start_time w =
     (case variation_try e variation_id variation_type start_time w of
        (Inl err, w1) \<Rightarrow>
          (None, sleep 5 (progress_update None (''[red]Error checking status: '' @ err) w1))
      | (Inr r, w1) \<Rightarrow> (r, w1))"

lemma variation_body_now:
  "variation_body e v ty st w = (None, w') \<Longrightarrow> now w + 3 \<le> now w'"
  by (auto simp: variation_body_def variation_try_def get_variation_def http_get_def
        sleep_def progress_update_def Let_def split: prod.splits sum.splits if_splits)

function variation_loop ::
  "env \<Rightarrow> string \<Rightarrow> string \<Rightarrow> int \<Rightarrow> real \<Rightarrow> world \<Rightarrow> (string + dict) \<times> world" where
  "variation_loop e variation_id variation_type timeout start_time w =
     (if now w - start_time < real_of_int timeout then
        (case variation_body e variation_id variation_type start_time w of
           (Some variation, w1) \<Rightarrow> (Inr variation, w1)
         | (None, w1) \<Rightarrow> variation_loop e variation_id variation_type timeout start_time w1)
      else
        (Inl (''Variation timed out after '' @ str_int timeout @ '' seconds''),
         progress_update None (''[red]'' @ capitalize variation_type @ '' timed out!'') w))"
  by pat_completeness auto
termination
  apply (relation "measure (\<lambda>(e, v, ty, timeout, st, w). nat \<lceil>real_of_int timeout - (now w - st)\<rceil>)")
   apply simp
  apply (drule sym, drule sym)
  apply simp
  apply (drule variation_body_now)
  apply linarith
  done

declare variation_loop.simps [simp del]

definition wait_for_variation ::
  "env \<Rightarrow> string \<Rightarrow> string \<Rightarrow> int \<Rightarrow> real \<Rightarrow> (string + dict) \<times> world" where
  "wait_for_variation e variation_id variation_type timeout t0 =
     (let start_time = t0;
          w = \<lparr>now = t0, requests = [], sleeps = [],
               progress = [(None, ''[yellow]Waiting for '' @ variation_type @ '' to complete...'')]\<rparr>
      in variation_loop e variation_id variation_type timeout start_time w)"

definition wait_for_variation_default ::
  "env \<Rightarrow> string \<Rightarrow> real \<Rightarrow> (string + dict) \<times> world" where
  "wait_for_variation_default e variation_id t0 =
     wait_for_variation e variation_id ''upscale'' 120 t0"

subsection \<open>What a run reports, and runs that agree\<close>

text \<open>
  The values of \<open>elapsed\<close> shown on the progress display, in the order shown.
\<close>

definition elapsed_values :: "world \<Rightarrow> int list" where
  "elapsed_values w = List.map_filter fst (progress w)"

text \<open>
  Two runs agree when they end at the same clock reading, after the same sleeps, the same
  number of requests and the same number of progress updates carrying the same values of
  \<open>elapsed\<close>; the URLs requested and the texts displayed may differ.
\<close>

definition same_run :: "world \<Rightarrow> world \<Rightarrow> bool" where
  "same_run w w' =
     (now w = now w' \<and> sleeps w = sleeps w' \<and> length (requests w) = length (requests w')
      \<and> map fst (progress w) = map fst (progress w'))"

subsection \<open>Some remote sides\<close>

definition already_complete :: env where
  "already_complete = \<lparr>server = \<lambda>url i. Inr [''status'' \<mapsto> Str ''COMPLETE'']\<rparr>"

definition always_erroring :: env where
  "always_erroring = \<lparr>server = \<lambda>url i. Inl ''Connection reset''\<rparr>"

definition never_finishing :: env where
  "never_finishing = \<lparr>server = \<lambda>url i. Inr [''status'' \<mapsto> Str ''PENDING'']\<rparr>"

definition two_errors_then_complete :: env where
  "two_errors_then_complete =
     \<lparr>server = \<lambda>url i. if i < 2 then Inl ''503 Server Error'' else Inr [''status'' \<mapsto> Str ''COMPLETE'']\<rparr>"

definition pending_twice :: env where
  "pending_twice =
     \<lparr>server = \<lambda>url i. if i < 2 then Inr [''status'' \<mapsto> Str ''PENDING'']
                        else Inr [''status'' \<mapsto> Str ''COMPLETE'']\<rparr>"

section \<open>Properties of the polling loops\<close>

subsection \<open>Unfolding the loop of \<open>wait_for_generation\<close>\<close>

lemma py_int_mono:
  assumes "x \<le> y"
  shows "py_int x \<le> py_int y"
proof (cases "0 \<le> x")
  case True
  with assms have "0 \<le> y" by simp
  with True assms show ?thesis by (simp add: py_int_def floor_mono)
next
  case False
  show ?thesis
  proof (cases "0 \<le> y")
    case True
    from False have "\<lceil>x\<rceil> \<le> 0" by (simp add: ceiling_le_zero)
    moreover from True have "0 \<le> \<lfloor>y\<rfloor>" by simp
    ultimately have "\<lceil>x\<rceil> \<le> \<lfloor>y\<rfloor>" by (rule order_trans)
    with False True show ?thesis by (simp only: py_int_def if_True if_False)
  next
    case y: False
    with False assms show ?thesis by (simp add: py_int_def ceiling_mono)
  qed
qed

lemma generation_loop_timeout:
  "\<not> now w - st < real_of_int T \<Longrightarrow>
   generation_loop e g T st w =
     (Inl (''Generation timed out after '' @ str_int T @ '' seconds''),
      progress_update None ''[red]Generation timed out!'' w)"
  by (simp add: generation_loop.simps)

lemma generation_loop_return:
  "now w - st < real_of_int T \<Longrightarrow> generation_body e g st w = (Some r, w1) \<Longrightarrow>
   generation_loop e g T st w = (Inr r, w1)"
  by (simp add: generation_loop.simps)

lemma generation_loop_continue:
  "now w - st < real_of_int T \<Longrightarrow> generation_body e g st w = (None, w1) \<Longrightarrow>
   generation_loop e g T st w = generation_loop e g T st w1"
  by (simp add: generation_loop.simps)

lemma generation_body_error:
  "server e (generation_url g) (length (requests w)) = Inl err \<Longrightarrow>
   generation_body e g st w =
     (None, sleep 5 (progress_update None (''[red]Error checking status: '' @ err)
                      (w\<lparr>requests := requests w @ [generation_url g]\<rparr>)))"
  by (simp add: generation_body_def generation_try_def get_generation_def http_get_def)

lemma generation_body_complete:
  "server e (generation_url g) (length (requests w)) = Inr r \<Longrightarrow>
   dict_get r ''status'' (Str '''') = Str ''COMPLETE'' \<Longrightarrow>
   generation_body e g st w =
     (Some r, progress_update None ''[green]Generation complete!''
                (w\<lparr>requests := requests w @ [generation_url g]\<rparr>))"
  by (simp add: generation_body_def generation_try_def get_generation_def http_get_def)

lemma generation_body_failed:
  "server e (generation_url g) (length (requests w)) = Inr r \<Longrightarrow>
   dict_get r ''status'' (Str '''') = Str ''FAILED'' \<Longrightarrow>
   generation_body e g st w =
     (None, sleep 5 (progress_update None
              (''[red]Error checking status: '' @ ''Generation failed: ''
                 @ py_str (dict_get r ''error'' (Str ''Unknown error'')))
              (progress_update None ''[red]Generation failed!''
                (w\<lparr>requests := requests w @ [generation_url g]\<rparr>))))"
  by (simp add: generation_body_def generation_try_def get_generation_def http_get_def)


lemma generation_body_requests:
  "generation_body e g st w = (r, w1) \<Longrightarrow> requests w1 = requests w @ [generation_url g]"
  by (auto simp: generation_body_def generation_try_def get_generation_def http_get_def
        sleep_def progress_update_def Let_def split: prod.splits sum.splits if_splits)

lemma generation_body_requests_nonempty:
  "generation_body e g st w = (r, w1) \<Longrightarrow> requests w1 \<noteq> []"
  by (drule generation_body_requests) simp

lemma generation_body_clock:
  "generation_body e g st w = (r, w1) \<Longrightarrow> now w \<le> now w1 \<and> now w1 \<le> now w + 5"
  by (auto simp: generation_body_def generation_try_def get_generation_def http_get_def
        sleep_def progress_update_def Let_def split: prod.splits sum.splits if_splits)



lemma generation_loop_cases [case_names timeout return continue]:
  obtains
    "\<not> now w - st < real_of_int T"
      "generation_loop e g T st w =
         (Inl (''Generation timed out after '' @ str_int T @ '' seconds''),
          progress_update None ''[red]Generation timed out!'' w)"
  | r w1 where "now w - st < real_of_int T" "generation_body e g st w = (Some r, w1)"
      "generation_loop e g T st w = (Inr r, w1)"
  | w1 where "now w - st < real_of_int T" "generation_body e g st w = (None, w1)"
      "generation_loop e g T st w = generation_loop e g T st w1"
proof (cases "now w - st < real_of_int T")
  case False
  with that(1) show ?thesis by (simp add: generation_loop_timeout)
next
  case True
  show ?thesis
  proof (cases "generation_body e g st w")
    case (Pair r w1)
    with True that(2,3) show ?thesis
      by (cases r) (simp_all add: generation_loop_return generation_loop_continue)
  qed
qed

lemma generation_loop_induct [case_names step]:
  assumes "\<And>w. (\<And>w1. now w - st < real_of_int T \<Longrightarrow> generation_body e g st w = (None, w1) \<Longrightarrow> P w1)
             \<Longrightarrow> P w"
  shows "P w"
proof (induction "nat \<lceil>real_of_int T - (now w - st)\<rceil>" arbitrary: w rule: less_induct)
  case less
  show ?case
  proof (rule assms)
    fix w1
    assume c: "now w - st < real_of_int T" and b: "generation_body e g st w = (None, w1)"
    from generation_body_now [OF b] c
    have "nat \<lceil>real_of_int T - (now w1 - st)\<rceil> < nat \<lceil>real_of_int T - (now w - st)\<rceil>"
      by linarith
    then show "P w1" by (rule less.hyps)
  qed
qed

subsection \<open>Invariants of the loop\<close>

lemma generation_loop_requests:
  "\<exists>us. requests (snd (generation_loop e g T st w)) = requests w @ us"
proof (induction w rule: generation_loop_induct [where st = st and T = T and e = e and g = g])
  case (step w)
  show ?case
  proof (cases rule: generation_loop_cases [of w st T e g])
    case timeout
    then show ?thesis by (simp add: progress_update_def)
  next
    case (return r w1)
    then show ?thesis by (simp add: generation_body_requests)
  next
    case (continue w1)
    from step [OF continue(1,2)] obtain us
      where "requests (snd (generation_loop e g T st w1)) = requests w1 @ us" ..
    with continue show ?thesis by (simp add: generation_body_requests)
  qed
qed



lemma elapsed_values_update:
  "elapsed_values (progress_update None d w) = elapsed_values w"
  "elapsed_values (progress_update (Some el) d w) = elapsed_values w @ [el]"
  "elapsed_values (sleep s w) = elapsed_values w"
  "elapsed_values (w\<lparr>requests := rs\<rparr>) = elapsed_values w"
  by (simp_all add: elapsed_values_def progress_update_def sleep_def List.map_filter_def)

lemma generation_body_elapsed:
  "generation_body e g st w = (r, w1) \<Longrightarrow>
   elapsed_values w1 = elapsed_values w \<or> elapsed_values w1 = elapsed_values w @ [py_int (now w - st)]"
  by (auto simp: generation_body_def generation_try_def get_generation_def http_get_def
        elapsed_values_update Let_def split: prod.splits sum.splits if_splits)

lemma generation_loop_elapsed_sorted:
  "sorted (elapsed_values w) \<Longrightarrow> \<forall>el \<in> set (elapsed_values w). el \<le> py_int (now w - st) \<Longrightarrow>
   sorted (elapsed_values (snd (generation_loop e g T st w)))"
proof (induction w rule: generation_loop_induct [where st = st and T = T and e = e and g = g])
  case (step w)
  have body: "sorted (elapsed_values w1) \<and> (\<forall>el \<in> set (elapsed_values w1). el \<le> py_int (now w1 - st))"
    if b: "generation_body e g st w = (r, w1)" for r w1
  proof -
    from generation_body_clock [OF b] have "py_int (now w - st) \<le> py_int (now w1 - st)"
      by (intro py_int_mono) simp
    with generation_body_elapsed [OF b] step.prems show ?thesis
      by (auto simp: sorted_append intro: order_trans)
  qed
  show ?case
  proof (cases rule: generation_loop_cases [of w st T e g])
    case timeout
    with step.prems show ?thesis by (simp add: elapsed_values_update)
  next
    case (return r w1)
    with body [OF return(2)] show ?thesis by simp
  next
    case (continue w1)
    from body [OF continue(2)] step.IH [OF continue(1,2)] continue(3)
    show ?thesis by simp
  qed
qed


lemma generation_loop_raises:
  "fst (generation_loop e g T st w) = Inl m \<Longrightarrow>
   m = ''Generation timed out after '' @ str_int T @ '' seconds''"
proof (induction w rule: generation_loop_induct [where st = st and T = T and e = e and g = g])
  case (step w)
  show ?case
  proof (cases rule: generation_loop_cases [of w st T e g])
    case timeout
    with step.prems show ?thesis by simp
  next
    case (return r w1)
    with step.prems show ?thesis by simp
  next
    case (continue w1)
    with step.IH [OF continue(1,2)] step.prems show ?thesis by simp
  qed
qed


lemma sleep_fields [simp]:
  "now (sleep d w) = now w + d"
  "sleeps (sleep d w) = sleeps w @ [d]"
  "requests (sleep d w) = requests w"
  "progress (sleep d w) = progress w"
  by (simp_all add: sleep_def)

lemma progress_update_fields [simp]:
  "now (progress_update el d w) = now w"
  "sleeps (progress_update el d w) = sleeps w"
  "requests (progress_update el d w) = requests w"
  "progress (progress_update el d w) = progress w @ [(el, d)]"
  by (simp_all add: progress_update_def)

lemma generation_loop_errors_then_complete:
  assumes "\<forall>i<n. isl (server e (generation_url g) (length (requests w) + i))"
    and "server e (generation_url g) (length (requests w) + n) = Inr r"
    and "r ''status'' = Some (Str ''COMPLETE'')"
    and "now w - st + 5 * real n < real_of_int T"
  shows "fst (generation_loop e g T st w) = Inr r
     \<and> now (snd (generation_loop e g T st w)) = now w + 5 * real n
     \<and> sleeps (snd (generation_loop e g T st w)) = sleeps w @ replicate n 5
     \<and> requests (snd (generation_loop e g T st w)) = requests w @ replicate (Suc n) (generation_url g)
     \<and> progress (snd (generation_loop e g T st w)) =
         progress w
         @ map (\<lambda>i. (None, ''[red]Error checking status: ''
                         @ projl (server e (generation_url g) (length (requests w) + i)))) [0..<n]
         @ [(None, ''[green]Generation complete!'')]"
  using assms
proof (induction n arbitrary: w)
  case 0
  then have c: "now w - st < real_of_int T" by simp
  from 0 have "dict_get r ''status'' (Str '''') = Str ''COMPLETE''" by (simp add: dict_get_def)
  with 0 have "generation_body e g st w =
     (Some r, progress_update None ''[green]Generation complete!''
                (w\<lparr>requests := requests w @ [generation_url g]\<rparr>))"
    by (simp add: generation_body_complete)
  with c have "generation_loop e g T st w =
     (Inr r, progress_update None ''[green]Generation complete!''
                (w\<lparr>requests := requests w @ [generation_url g]\<rparr>))"
    by (rule generation_loop_return)
  then show ?case by (simp add: progress_update_def)
next
  case (Suc n)
  let ?u = "generation_url g"
  have "0 < Suc n" by simp
  with Suc.prems(1) have "isl (server e ?u (length (requests w) + 0))" by blast
  then have "isl (server e ?u (length (requests w)))" by simp
  then obtain err where err: "server e ?u (length (requests w)) = Inl err"
    by (auto simp: isl_def)
  let ?w1 = "sleep 5 (progress_update None (''[red]Error checking status: '' @ err)
                      (w\<lparr>requests := requests w @ [?u]\<rparr>))"
  from Suc.prems(4) have c: "now w - st < real_of_int T" by simp
  from err have "generation_body e g st w = (None, ?w1)" by (rule generation_body_error)
  with c have eq: "generation_loop e g T st w = generation_loop e g T st ?w1"
    by (rule generation_loop_continue)
  have a1: "\<forall>i<n. isl (server e ?u (length (requests ?w1) + i))"
  proof (intro allI impI)
    fix i assume "i < n"
    then have "Suc i < Suc n" by simp
    with Suc.prems(1) have "isl (server e ?u (length (requests w) + Suc i))" by blast
    then show "isl (server e ?u (length (requests ?w1) + i))" by simp
  qed
  have a2: "server e ?u (length (requests ?w1) + n) = Inr r"
    using Suc.prems(2) by simp
  have a4: "now ?w1 - st + 5 * real n < real_of_int T"
    using Suc.prems(4) by simp
  note ih = Suc.IH [OF a1 a2 Suc.prems(3) a4]
  have m: "map (\<lambda>i. (None :: int option, ''[red]Error checking status: ''
                     @ projl (server e ?u (length (requests w) + i)))) [0..<Suc n]
         = (None, ''[red]Error checking status: '' @ err)
           # map (\<lambda>i. (None, ''[red]Error checking status: ''
                     @ projl (server e ?u (length (requests ?w1) + i)))) [0..<n]"
    by (simp only: map_upt_Suc) (simp add: err)
  show ?case
    unfolding eq m using ih by (simp add: replicate_app_Cons_same)
qed

subsection \<open>The three loops side by side\<close>

lemma motion_loop_timeout:
  "\<not> now w - st < real_of_int T \<Longrightarrow>
   motion_loop e g T st w =
     (Inl (''Motion generation timed out after '' @ str_int T @ '' seconds''),
      progress_update None ''[red]Video generation timed out!'' w)"
  by (simp add: motion_loop.simps)

lemma motion_loop_return:
  "now w - st < real_of_int T \<Longrightarrow> motion_body e g st w = (Some r, w1) \<Longrightarrow>
   motion_loop e g T st w = (Inr r, w1)"
  by (simp add: motion_loop.simps)

lemma motion_loop_continue:
  "now w - st < real_of_int T \<Longrightarrow> motion_body e g st w = (None, w1) \<Longrightarrow>
   motion_loop e g T st w = motion_loop e g T st w1"
  by (simp add: motion_loop.simps)

lemma variation_loop_timeout:
  "\<not> now w - st < real_of_int T \<Longrightarrow>
   variation_loop e v ty T st w =
     (Inl (''Variation timed out after '' @ str_int T @ '' seconds''),
      progress_update None (''[red]'' @ capitalize ty @ '' timed out!'') w)"
  by (simp add: variation_loop.simps)

lemma variation_loop_return:
  "now w - st < real_of_int T \<Longrightarrow> variation_body e v ty st w = (Some r, w1) \<Longrightarrow>
   variation_loop e v ty T st w = (Inr r, w1)"
  by (simp add: variation_loop.simps)

lemma variation_loop_continue:
  "now w - st < real_of_int T \<Longrightarrow> variation_body e v ty st w = (None, w1) \<Longrightarrow>
   variation_loop e v ty T st w = variation_loop e v ty T st w1"
  by (simp add: variation_loop.simps)

lemma motion_body_same:
  assumes "same_run w w'"
    and "server e (generation_url g) (length (requests w)) =
         server e (motion_generation_url m) (length (requests w'))"
  shows "fst (generation_body e g st w) = fst (motion_body e m st w')
         \<and> same_run (snd (generation_body e g st w)) (snd (motion_body e m st w'))"
  using assms
  by (cases "server e (motion_generation_url m) (length (requests w'))")
     (simp_all add: same_run_def generation_body_def generation_try_def get_generation_def
        motion_body_def motion_try_def get_motion_generation_def http_get_def Let_def)

lemma variation_body_same:
  assumes "same_run w w'"
    and "server e (generation_url g) (length (requests w)) =
         server e (variation_url v ty) (length (requests w'))"
  shows "fst (generation_body e g st w) = fst (variation_body e v ty st w')
         \<and> same_run (snd (generation_body e g st w)) (snd (variation_body e v ty st w'))"
  using assms
  by (cases "server e (variation_url v ty) (length (requests w'))")
     (simp_all add: same_run_def generation_body_def generation_try_def get_generation_def
        variation_body_def variation_try_def get_variation_def http_get_def Let_def)

lemma motion_loop_same:
  assumes "\<forall>i. server e (generation_url g) i = server e (motion_generation_url m) i"
  shows "same_run w w' \<Longrightarrow>
     (\<exists>r. fst (generation_loop e g T st w) = Inr r \<and> fst (motion_loop e m T st w') = Inr r
        \<or> fst (generation_loop e g T st w) =
             Inl (''Generation timed out after '' @ str_int T @ '' seconds'') \<and>
           fst (motion_loop e m T st w') =
             Inl (''Motion generation timed out after '' @ str_int T @ '' seconds''))
     \<and> same_run (snd (generation_loop e g T st w)) (snd (motion_loop e m T st w'))"
proof (induction w arbitrary: w' rule: generation_loop_induct [where st = st and T = T and e = e and g = g])
  case (step w)
  from step.prems have len: "length (requests w) = length (requests w')" and clk: "now w = now w'"
    by (simp_all add: same_run_def)
  from assms len have "server e (generation_url g) (length (requests w)) =
         server e (motion_generation_url m) (length (requests w'))"
    by simp
  note body = motion_body_same [OF step.prems this, of st]
  show ?case
  proof (cases rule: generation_loop_cases [of w st T e g])
    case timeout
    with clk have "\<not> now w' - st < real_of_int T" by simp
    from motion_loop_timeout [OF this] timeout(2) step.prems show ?thesis
      by (simp add: same_run_def)
  next
    case (return r w1)
    obtain r' w1' where b: "motion_body e m st w' = (r', w1')" by (cases "motion_body e m st w'")
    with body return(2) have r': "r' = Some r" and s: "same_run w1 w1'" by simp_all
    from return(1) clk have "now w' - st < real_of_int T" by simp
    from motion_loop_return [OF this b [unfolded r']] return(3) s show ?thesis by simp
  next
    case (continue w1)
    obtain r' w1' where b: "motion_body e m st w' = (r', w1')" by (cases "motion_body e m st w'")
    with body continue(2) have r': "r' = None" and s: "same_run w1 w1'" by simp_all
    from continue(1) clk have "now w' - st < real_of_int T" by simp
    from motion_loop_continue [OF this b [unfolded r']] continue(3)
      step.IH [OF continue(1,2) s]
    show ?thesis by simp
  qed
qed

lemma variation_loop_same:
  assumes "\<forall>i. server e (generation_url g) i = server e (variation_url v ty) i"
  shows "same_run w w' \<Longrightarrow>
     (\<exists>r. fst (generation_loop e g T st w) = Inr r \<and> fst (variation_loop e v ty T st w') = Inr r
        \<or> fst (generation_loop e g T st w) =
             Inl (''Generation timed out after '' @ str_int T @ '' seconds'') \<and>
           fst (variation_loop e v ty T st w') =
             Inl (''Variation timed out after '' @ str_int T @ '' seconds''))
     \<and> same_run (snd (generation_loop e g T st w)) (snd (variation_loop e v ty T st w'))"
proof (induction w arbitrary: w' rule: generation_loop_induct [where st = st and T = T and e = e and g = g])
  case (step w)
  from step.prems have len: "length (requests w) = length (requests w')" and clk: "now w = now w'"
    by (simp_all add: same_run_def)
  from assms len have "server e (generation_url g) (length (requests w)) =
         server e (variation_url v ty) (length (requests w'))"
    by simp
  note body = variation_body_same [OF step.prems this, of st]
  show ?case
  proof (cases rule: generation_loop_cases [of w st T e g])
    case timeout
    with clk have "\<not> now w' - st < real_of_int T" by simp
    from variation_loop_timeout [OF this] timeout(2) step.prems show ?thesis
      by (simp add: same_run_def)
  next
    case (return r w1)
    obtain r' w1' where b: "variation_body e v ty st w' = (r', w1')"
      by (cases "variation_body e v ty st w'")
    with body return(2) have r': "r' = Some r" and s: "same_run w1 w1'" by simp_all
    from return(1) clk have "now w' - st < real_of_int T" by simp
    from variation_loop_return [OF this b [unfolded r']] return(3) s show ?thesis by simp
  next
    case (continue w1)
    obtain r' w1' where b: "variation_body e v ty st w' = (r', w1')"
      by (cases "variation_body e v ty st w'")
    with body continue(2) have r': "r' = None" and s: "same_run w1 w1'" by simp_all
    from continue(1) clk have "now w' - st < real_of_int T" by simp
    from variation_loop_continue [OF this b [unfolded r']] continue(3)
      step.IH [OF continue(1,2) s]
    show ?thesis by simp
  qed
qed

subsection \<open>Runs on the example remote sides\<close>

lemmas generation_eval =
  wait_for_generation_def generation_loop.simps generation_body_def generation_try_def
  get_generation_def http_get_def generation_url_def API_BASE_URL_def dict_get_def sleep_def
  progress_update_def py_int_def str_int_def str_nat.simps digit_def Let_def

lemmas motion_eval =
  wait_for_motion_generation_def motion_loop.simps motion_body_def motion_try_def
  get_motion_generation_def http_get_def motion_generation_url_def API_BASE_URL_def dict_get_def
  sleep_def progress_update_def py_int_def str_int_def str_nat.simps digit_def Let_def

lemmas variation_eval =
  wait_for_variation_def variation_loop.simps variation_body_def variation_try_def
  get_variation_def http_get_def variation_url_def API_BASE_URL_def dict_get_def
  sleep_def progress_update_def py_int_def str_int_def str_nat.simps digit_def Let_def
  upper_char_def lower_char_def

lemma always_erroring_run:
  "wait_for_generation always_erroring ''g'' 10 0 =
     (Inl ''Generation timed out after 10 seconds'',
      \<lparr>now = 10,
       requests = [''https://cloud.leonardo.ai/api/rest/v1/generations/g'',
                   ''https://cloud.leonardo.ai/api/rest/v1/generations/g''],
       sleeps = [5, 5],
       progress = [(None, ''[yellow]Waiting for generation...''),
                   (None, ''[red]Error checking status: Connection reset''),
                   (None, ''[red]Error checking status: Connection reset''),
                   (None, ''[red]Generation timed out!'')]\<rparr>)"
  by (simp add: generation_eval always_erroring_def)

lemma never_finishing_run:
  "wait_for_generation never_finishing ''g'' 10 0 =
     (Inl ''Generation timed out after 10 seconds'',
      \<lparr>now = 12,
       requests = [''https://cloud.leonardo.ai/api/rest/v1/generations/g'',
                   ''https://cloud.leonardo.ai/api/rest/v1/generations/g'',
                   ''https://cloud.leonardo.ai/api/rest/v1/generations/g'',
                   ''https://cloud.leonardo.ai/api/rest/v1/generations/g''],
       sleeps = [3, 3, 3, 3],
       progress = [(None, ''[yellow]Waiting for generation...''),
                   (Some 0, ''[yellow]Waiting for generation... (0s)''),
                   (Some 3, ''[yellow]Waiting for generation... (3s)''),
                   (Some 6, ''[yellow]Waiting for generation... (6s)''),
                   (Some 9, ''[yellow]Waiting for generation... (9s)''),
                   (None, ''[red]Generation timed out!'')]\<rparr>)"
  by (simp add: generation_eval never_finishing_def)

lemma pending_twice_generation:
  "wait_for_generation pending_twice ''g'' 10 0 =
     (Inr [''status'' \<mapsto> Str ''COMPLETE''],
      \<lparr>now = 6, requests = [''https://cloud.leonardo.ai/api/rest/v1/generations/g'',
                   ''https://cloud.leonardo.ai/api/rest/v1/generations/g'',
                   ''https://cloud.leonardo.ai/api/rest/v1/generations/g''],
       sleeps = [3, 3],
       progress = [(None, ''[yellow]Waiting for generation...''),
                   (Some 0, ''[yellow]Waiting for generation... (0s)''),
                   (Some 3, ''[yellow]Waiting for generation... (3s)''),
                   (None, ''[green]Generation complete!'')]\<rparr>)"
  by (simp add: generation_eval pending_twice_def)

lemma pending_twice_motion:
  "wait_for_motion_generation pending_twice ''m'' 10 0 =
     (Inr [''status'' \<mapsto> Str ''COMPLETE''],
      \<lparr>now = 6,
       requests = [''https://cloud.leonardo.ai/api/rest/v1/generations-motion-svd/m'',
                   ''https://cloud.leonardo.ai/api/rest/v1/generations-motion-svd/m'',
                   ''https://cloud.leonardo.ai/api/rest/v1/generations-motion-svd/m''],
       sleeps = [3, 3],
       progress = [(None, ''[yellow]Waiting for video generation...''),
                   (Some 0, ''[yellow]Waiting for video generation... (0s)''),
                   (Some 3, ''[yellow]Waiting for video generation... (3s)''),
                   (None, ''[green]Video generation complete!'')]\<rparr>)"
  by (simp add: motion_eval pending_twice_def)

lemma pending_twice_variation:
  "wait_for_variation pending_twice ''v'' ''unzoom'' 10 0 =
     (Inr [''status'' \<mapsto> Str ''COMPLETE''],
      \<lparr>now = 6,
       requests = [''https://cloud.leonardo.ai/api/rest/v1/variations/unzoom/v'',
                   ''https://cloud.leonardo.ai/api/rest/v1/variations/unzoom/v'',
                   ''https://cloud.leonardo.ai/api/rest/v1/variations/unzoom/v''],
       sleeps = [3, 3],
       progress = [(None, ''[yellow]Waiting for unzoom to complete...''),
                   (Some 0, ''[yellow]Waiting for unzoom to complete... (0s)''),
                   (Some 3, ''[yellow]Waiting for unzoom to complete... (3s)''),
                   (None, ''[green]Unzoom complete!'')]\<rparr>)"
  by (simp add: variation_eval pending_twice_def)

section \<open>The claims\<close>

subsection \<open>A job reported as \<open>FAILED\<close>\<close>

text \<open>
  Claim C1. The claim is that a record with status \<open>FAILED\<close> ends the poll at once with
  the job's failure. The exception that the \<open>FAILED\<close> branch raises is raised inside the
  \<open>try\<close> block, so the handler \<open>except Exception\<close> of the same iteration catches it:
  the failure is shown on the progress display, the loop sleeps 5 seconds and fetches
  again. With a timeout of 10 seconds and a job that is \<open>FAILED\<close> at every fetch, the
  method fetches twice, sleeps twice and raises the timeout exception.
\<close>

theorem wait_for_generation_failed_swallowed:
  "wait_for_generation
     \<lparr>server = \<lambda>url i. Inr [''status'' \<mapsto> Str ''FAILED'', ''error'' \<mapsto> Str ''boom'']\<rparr>
     ''g'' 10 0 =
   (Inl ''Generation timed out after 10 seconds'',
    \<lparr>now = 10,
     requests = [''https://cloud.leonardo.ai/api/rest/v1/generations/g'',
                 ''https://cloud.leonardo.ai/api/rest/v1/generations/g''],
     sleeps = [5, 5],
     progress = [(None, ''[yellow]Waiting for generation...''),
                 (None, ''[red]Generation failed!''),
                 (None, ''[red]Error checking status: Generation failed: boom''),
                 (None, ''[red]Generation failed!''),
                 (None, ''[red]Error checking status: Generation failed: boom''),
                 (None, ''[red]Generation timed out!'')]\<rparr>)"
  by (simp add: generation_eval)

subsection \<open>Bounded termination\<close>


subsection \<open>Transient fetch errors\<close>

text \<open>
  Claim C3. A status fetch that raises is absorbed. Inside the time budget, the iteration
  shows the error on the progress display, sleeps 5 seconds and the loop goes on; an
  exception that \<open>wait_for_generation\<close> raises is always the timeout exception, never
  the fetch error; and when the first \<open>N\<close> fetches raise, fetch \<open>N\<close> returns a
  \<open>COMPLETE\<close> record and \<open>5 * N\<close> is less than the timeout, the method returns that
  record after \<open>N\<close> sleeps of 5 seconds, each error having been displayed.
\<close>

theorem wait_for_generation_transient_errors:
  "(now w - start_time < real_of_int timeout \<and>
      server e (generation_url generation_id) (length (requests w)) = Inl err \<longrightarrow>
      generation_loop e generation_id timeout start_time w =
      generation_loop e generation_id timeout start_time
        (sleep 5 (progress_update None (''[red]Error checking status: '' @ err)
                   (w\<lparr>requests := requests w @ [generation_url generation_id]\<rparr>))))
   \<and> (fst (wait_for_generation e generation_id timeout t0) = Inl m \<longrightarrow>
        m = ''Generation timed out after '' @ str_int timeout @ '' seconds'')
   \<and> ((\<forall>i<N. isl (server e (generation_url generation_id) i)) \<and>
        server e (generation_url generation_id) N = Inr r \<and>
        r ''status'' = Some (Str ''COMPLETE'') \<and>
        real N * 5 < real_of_int timeout \<longrightarrow>
        fst (wait_for_generation e generation_id timeout t0) = Inr r \<and>
        now (snd (wait_for_generation e generation_id timeout t0)) = t0 + 5 * real N \<and>
        sleeps (snd (wait_for_generation e generation_id timeout t0)) = replicate N 5 \<and>
        requests (snd (wait_for_generation e generation_id timeout t0)) =
          replicate (Suc N) (generation_url generation_id) \<and>
        progress (snd (wait_for_generation e generation_id timeout t0)) =
          (None, ''[yellow]Waiting for generation...'')
          # map (\<lambda>i. (None, ''[red]Error checking status: ''
                          @ projl (server e (generation_url generation_id) i))) [0..<N]
          @ [(None, ''[green]Generation complete!'')])"
proof (intro conjI impI)
  assume "now w - start_time < real_of_int timeout \<and>
      server e (generation_url generation_id) (length (requests w)) = Inl err"
  then show "generation_loop e generation_id timeout start_time w =
      generation_loop e generation_id timeout start_time
        (sleep 5 (progress_update None (''[red]Error checking status: '' @ err)
                   (w\<lparr>requests := requests w @ [generation_url generation_id]\<rparr>)))"
    by (intro generation_loop_continue generation_body_error) simp_all
next
  assume "fst (wait_for_generation e generation_id timeout t0) = Inl m"
  then show "m = ''Generation timed out after '' @ str_int timeout @ '' seconds''"
    unfolding wait_for_generation_def Let_def by (rule generation_loop_raises)
next
  let ?w = "\<lparr>now = t0, requests = [], sleeps = [],
             progress = [(None, ''[yellow]Waiting for generation...'')]\<rparr>"
  assume a: "(\<forall>i<N. isl (server e (generation_url generation_id) i)) \<and>
        server e (generation_url generation_id) N = Inr r \<and>
        r ''status'' = Some (Str ''COMPLETE'') \<and>
        real N * 5 < real_of_int timeout"
  then have "\<forall>i<N. isl (server e (generation_url generation_id) (length (requests ?w) + i))"
    and "server e (generation_url generation_id) (length (requests ?w) + N) = Inr r"
    and "r ''status'' = Some (Str ''COMPLETE'')"
    and "now ?w - t0 + 5 * real N < real_of_int timeout"
    by simp_all
  note res = generation_loop_errors_then_complete [OF this]
  from res show "fst (wait_for_generation e generation_id timeout t0) = Inr r"
    by (simp add: wait_for_generation_def)
  from res show "now (snd (wait_for_generation e generation_id timeout t0)) = t0 + 5 * real N"
    by (simp add: wait_for_generation_def)
  from res show "sleeps (snd (wait_for_generation e generation_id timeout t0)) = replicate N 5"
    by (simp add: wait_for_generation_def)
  from res show "requests (snd (wait_for_generation e generation_id timeout t0)) =
          replicate (Suc N) (generation_url generation_id)"
    by (simp add: wait_for_generation_def)
  from res show "progress (snd (wait_for_generation e generation_id timeout t0)) =
          (None, ''[yellow]Waiting for generation...'')
          # map (\<lambda>i. (None, ''[red]Error checking status: ''
                          @ projl (server e (generation_url generation_id) i))) [0..<N]
          @ [(None, ''[green]Generation complete!'')]"
    by (simp add: wait_for_generation_def)
qed

theorem wait_for_generation_transient_errors_witness:
  "fst (wait_for_generation two_errors_then_complete ''g'' 11 0) = Inr [''status'' \<mapsto> Str ''COMPLETE'']
   \<and> now (snd (wait_for_generation two_errors_then_complete ''g'' 11 0)) = 10
   \<and> sleeps (snd (wait_for_generation two_errors_then_complete ''g'' 11 0)) = [5, 5]
   \<and> progress (snd (wait_for_generation two_errors_then_complete ''g'' 11 0)) =
        [(None, ''[yellow]Waiting for generation...''),
         (None, ''[red]Error checking status: 503 Server Error''),
         (None, ''[red]Error checking status: 503 Server Error''),
         (None, ''[green]Generation complete!'')]
   \<and> generation_loop two_errors_then_complete ''g'' 11 0
         \<lparr>now = 0, requests = [], sleeps = [], progress = []\<rparr> =
       generation_loop two_errors_then_complete ''g'' 11 0
         \<lparr>now = 5, requests = [generation_url ''g''], sleeps = [5],
          progress = [(None, ''[red]Error checking status: 503 Server Error'')]\<rparr>
   \<and> fst (wait_for_generation always_erroring ''g'' 10 0) = Inl ''Generation timed out after 10 seconds''"
  using wait_for_generation_transient_errors
    [where e = two_errors_then_complete and generation_id = "''g''" and timeout = 11 and ?t0.0 = 0
       and N = 2 and r = "[''status'' \<mapsto> Str ''COMPLETE'']"
       and w = "\<lparr>now = 0, requests = [], sleeps = [], progress = []\<rparr>" and start_time = 0
       and err = "''503 Server Error''"]
    wait_for_generation_transient_errors
    [where e = always_erroring and generation_id = "''g''" and timeout = 10 and ?t0.0 = 0
       and m = "''Generation timed out after 10 seconds''"]
  by (simp add: two_errors_then_complete_def always_erroring_run sleep_def progress_update_def
        numeral_2_eq_2 upt_rec)

subsection \<open>The timeout exception\<close>




subsection \<open>An empty job identifier\<close>

text \<open>
  Claim C5. The claim is that an empty identifier is rejected before any request. The
  method does not look at the identifier: with the empty identifier and a job that is
  \<open>COMPLETE\<close>, it requests the URL built from it and returns the record.
\<close>

theorem wait_for_generation_empty_id_counterexample:
  "wait_for_generation already_complete '''' 120 0 =
     (Inr [''status'' \<mapsto> Str ''COMPLETE''],
      \<lparr>now = 0, requests = [''https://cloud.leonardo.ai/api/rest/v1/generations/''], sleeps = [],
       progress = [(None, ''[yellow]Waiting for generation...''),
                   (None, ''[green]Generation complete!'')]\<rparr>)"
  by (simp add: generation_eval already_complete_def)

text \<open>
  Claim C5, as amended. For every identifier, the empty one included, and a positive timeout, the
  first action of \<open>wait_for_generation\<close> is the status request for that identifier, and
  the only exception it raises is the timeout exception.
\<close>

theorem wait_for_generation_no_validation:
  assumes "0 < timeout"
  shows "(\<exists>us. requests (snd (wait_for_generation e generation_id timeout t0)) =
                 generation_url generation_id # us)
         \<and> (fst (wait_for_generation e generation_id timeout t0) = Inl m \<longrightarrow>
              m = ''Generation timed out after '' @ str_int timeout @ '' seconds'')"
proof
  let ?w = "\<lparr>now = t0, requests = [], sleeps = [],
             progress = [(None, ''[yellow]Waiting for generation...'')]\<rparr>"
  from assms have c: "now ?w - t0 < real_of_int timeout" by simp
  have "\<exists>us. requests (snd (generation_loop e generation_id timeout t0 ?w)) =
          generation_url generation_id # us"
  proof (cases rule: generation_loop_cases [of ?w t0 timeout e generation_id])
    case timeout
    with c show ?thesis by simp
  next
    case (return r w1)
    with generation_body_requests [OF return(2)] show ?thesis by simp
  next
    case (continue w1)
    from generation_loop_requests [of e generation_id timeout t0 w1] obtain us
      where "requests (snd (generation_loop e generation_id timeout t0 w1)) = requests w1 @ us" ..
    with continue(3) generation_body_requests [OF continue(2)] show ?thesis by simp
  qed
  then show "\<exists>us. requests (snd (wait_for_generation e generation_id timeout t0)) =
                 generation_url generation_id # us"
    by (simp add: wait_for_generation_def)
next
  show "fst (wait_for_generation e generation_id timeout t0) = Inl m \<longrightarrow>
              m = ''Generation timed out after '' @ str_int timeout @ '' seconds''"
    unfolding wait_for_generation_def Let_def by (rule impI) (rule generation_loop_raises)
qed

theorem wait_for_generation_no_validation_witness:
  "(0::int) < 10
   \<and> (\<exists>us. requests (snd (wait_for_generation always_erroring '''' 10 0)) = generation_url '''' # us)
   \<and> fst (wait_for_generation always_erroring '''' 10 0) = Inl ''Generation timed out after 10 seconds''"
  using wait_for_generation_no_validation
    [where e = always_erroring and generation_id = "''''" and timeout = 10 and ?t0.0 = 0
       and m = "''Generation timed out after 10 seconds''"]
  by (simp add: generation_eval always_erroring_def)

subsection \<open>Immediate success\<close>

text \<open>
  Claim C6. When the timeout is positive and the first status fetch returns a record whose
  status is \<open>COMPLETE\<close>, \<open>wait_for_generation\<close> returns that record; exactly one request
  has been made, nothing has been slept and the clock has not moved.
\<close>

theorem wait_for_generation_complete_first:
  assumes "0 < timeout"
    and "server e (generation_url generation_id) 0 = Inr r"
    and "r ''status'' = Some (Str ''COMPLETE'')"
  shows "wait_for_generation e generation_id timeout t0 =
           (Inr r, \<lparr>now = t0, requests = [generation_url generation_id], sleeps = [],
                    progress = [(None, ''[yellow]Waiting for generation...''),
                                (None, ''[green]Generation complete!'')]\<rparr>)"
proof -
  let ?w = "\<lparr>now = t0, requests = [], sleeps = [],
             progress = [(None, ''[yellow]Waiting for generation...'')]\<rparr>"
  from assms(3) have st: "dict_get r ''status'' (Str '''') = Str ''COMPLETE''"
    by (simp add: dict_get_def)
  from assms(2) have "server e (generation_url generation_id) (length (requests ?w)) = Inr r"
    by simp
  from generation_body_complete [OF this st]
  have "generation_body e generation_id t0 ?w =
          (Some r, progress_update None ''[green]Generation complete!''
                     (?w\<lparr>requests := requests ?w @ [generation_url generation_id]\<rparr>))" .
  moreover from assms(1) have "now ?w - t0 < real_of_int timeout" by simp
  ultimately have "generation_loop e generation_id timeout t0 ?w =
      (Inr r, progress_update None ''[green]Generation complete!''
                     (?w\<lparr>requests := requests ?w @ [generation_url generation_id]\<rparr>))"
    by (rule generation_loop_return [rotated])
  then show ?thesis
    by (simp add: wait_for_generation_def progress_update_def)
qed

theorem wait_for_generation_complete_first_witness:
  "(0::int) < 120 \<and>
   wait_for_generation \<lparr>server = \<lambda>url i. Inr [''status'' \<mapsto> Str ''COMPLETE'']\<rparr> ''abc'' 120 0 =
     (Inr [''status'' \<mapsto> Str ''COMPLETE''],
      \<lparr>now = 0, requests = [generation_url ''abc''], sleeps = [],
       progress = [(None, ''[yellow]Waiting for generation...''),
                   (None, ''[green]Generation complete!'')]\<rparr>)"
  using wait_for_generation_complete_first
    [where timeout = 120 and e = "\<lparr>server = \<lambda>url i. Inr [''status'' \<mapsto> Str ''COMPLETE'']\<rparr>"
       and generation_id = "''abc''" and r = "[''status'' \<mapsto> Str ''COMPLETE'']" and ?t0.0 = 0]
  by simp

subsection \<open>A job that is still running\<close>



subsection \<open>Elapsed seconds never decrease\<close>

text \<open>
  Claim C8. The values of \<open>elapsed\<close> that one call of \<open>wait_for_generation\<close> displays are
  in non-decreasing order. On a job that never leaves the queue and a timeout of 10
  seconds they are 0, 3, 6 and 9.
\<close>

theorem wait_for_generation_elapsed_nondecreasing:
  "sorted (elapsed_values (snd (wait_for_generation e generation_id timeout t0)))"
proof -
  let ?w = "\<lparr>now = t0, requests = [], sleeps = [],
             progress = [(None, ''[yellow]Waiting for generation...'')]\<rparr>"
  have "elapsed_values ?w = []" by (simp add: elapsed_values_def List.map_filter_def)
  then have "sorted (elapsed_values (snd (generation_loop e generation_id timeout t0 ?w)))"
    by (intro generation_loop_elapsed_sorted) simp_all
  then show ?thesis by (simp add: wait_for_generation_def)
qed

lemma wait_for_generation_elapsed_example:
  "elapsed_values (snd (wait_for_generation \<lparr>server = \<lambda>url i. Inr Map.empty\<rparr> ''g'' 10 0)) = [0, 3, 6, 9]"
  by (simp add: generation_eval elapsed_values_def List.map_filter_def)

subsection \<open>The three polling methods agree\<close>

text \<open>
  Claim C9. When the remote side answers the three status URLs alike, the three methods
  called with the same timeout at the same time either all return the same record or all
  raise their timeout exception, after the same number of requests, the same sleeps and
  at the same clock reading, having displayed the same values of \<open>elapsed\<close>. They differ
  in the URL requested, in the texts displayed and raised, and in the timeout used when
  none is given: 120, 300 and 120 seconds.
\<close>

theorem wait_operations_equivalent:
  assumes "\<forall>i. server e (generation_url generation_id) i =
               server e (motion_generation_url motion_id) i"
    and "\<forall>i. server e (generation_url generation_id) i =
             server e (variation_url variation_id variation_type) i"
  shows "((\<exists>r. fst (wait_for_generation e generation_id timeout t0) = Inr r
             \<and> fst (wait_for_motion_generation e motion_id timeout t0) = Inr r
             \<and> fst (wait_for_variation e variation_id variation_type timeout t0) = Inr r)
          \<or> (fst (wait_for_generation e generation_id timeout t0) =
                Inl (''Generation timed out after '' @ str_int timeout @ '' seconds'')
             \<and> fst (wait_for_motion_generation e motion_id timeout t0) =
                Inl (''Motion generation timed out after '' @ str_int timeout @ '' seconds'')
             \<and> fst (wait_for_variation e variation_id variation_type timeout t0) =
                Inl (''Variation timed out after '' @ str_int timeout @ '' seconds'')))
       \<and> same_run (snd (wait_for_generation e generation_id timeout t0))
                   (snd (wait_for_motion_generation e motion_id timeout t0))
       \<and> same_run (snd (wait_for_generation e generation_id timeout t0))
                   (snd (wait_for_variation e variation_id variation_type timeout t0))
       \<and> wait_for_generation_default e generation_id t0 = wait_for_generation e generation_id 120 t0
       \<and> wait_for_motion_generation_default e motion_id t0 =
           wait_for_motion_generation e motion_id 300 t0
       \<and> wait_for_variation_default e variation_id t0 =
           wait_for_variation e variation_id ''upscale'' 120 t0"
proof -
  let ?g = "\<lparr>now = t0, requests = [], sleeps = [],
             progress = [(None, ''[yellow]Waiting for generation...'')]\<rparr>"
  let ?m = "\<lparr>now = t0, requests = [], sleeps = [],
             progress = [(None, ''[yellow]Waiting for video generation...'')]\<rparr>"
  let ?v = "\<lparr>now = t0, requests = [], sleeps = [],
             progress = [(None, ''[yellow]Waiting for '' @ variation_type @ '' to complete...'')]\<rparr>"
  have gm: "same_run ?g ?m" and gv: "same_run ?g ?v" by (simp_all add: same_run_def)
  note m = motion_loop_same [OF assms(1) gm, of timeout t0]
  note v = variation_loop_same [OF assms(2) gv, of timeout t0]
  from m v show ?thesis
    unfolding wait_for_generation_def wait_for_motion_generation_def wait_for_variation_def
      wait_for_generation_default_def wait_for_motion_generation_default_def
      wait_for_variation_default_def Let_def
    by auto
qed

theorem wait_operations_equivalent_witness:
  "(\<forall>i. server pending_twice (generation_url ''g'') i =
        server pending_twice (motion_generation_url ''m'') i)
   \<and> (\<forall>i. server pending_twice (generation_url ''g'') i =
        server pending_twice (variation_url ''v'' ''unzoom'') i)
   \<and> fst (wait_for_generation pending_twice ''g'' 10 0) = Inr [''status'' \<mapsto> Str ''COMPLETE'']
   \<and> fst (wait_for_motion_generation pending_twice ''m'' 10 0) = Inr [''status'' \<mapsto> Str ''COMPLETE'']
   \<and> fst (wait_for_variation pending_twice ''v'' ''unzoom'' 10 0) = Inr [''status'' \<mapsto> Str ''COMPLETE'']
   \<and> same_run (snd (wait_for_generation pending_twice ''g'' 10 0))
               (snd (wait_for_motion_generation pending_twice ''m'' 10 0))
   \<and> same_run (snd (wait_for_generation pending_twice ''g'' 10 0))
               (snd (wait_for_variation pending_twice ''v'' ''unzoom'' 10 0))"
  using wait_operations_equivalent
    [where e = pending_twice and generation_id = "''g''" and motion_id = "''m''"
       and variation_id = "''v''" and variation_type = "''unzoom''" and timeout = 10 and ?t0.0 = 0]
  by (simp add: pending_twice_generation pending_twice_motion pending_twice_variation)
     (simp add: pending_twice_def)

subsection \<open>A timeout that is not positive\<close>

text \<open>
  Claim C10. With a timeout of zero or less, \<open>wait_for_generation\<close> makes no request and
  raises the timeout exception at once, whatever the remote side would answer; a request
  is made (the loop body is entered) exactly when the timeout is positive.
\<close>

theorem wait_for_generation_nonpositive_timeout:
  "(timeout \<le> 0 \<longrightarrow>
      wait_for_generation e generation_id timeout t0 =
        (Inl (''Generation timed out after '' @ str_int timeout @ '' seconds''),
         \<lparr>now = t0, requests = [], sleeps = [],
          progress = [(None, ''[yellow]Waiting for generation...''),
                      (None, ''[red]Generation timed out!'')]\<rparr>))
   \<and> ((requests (snd (wait_for_generation e generation_id timeout t0)) \<noteq> []) = (0 < timeout))"
proof -
  let ?w = "\<lparr>now = t0, requests = [], sleeps = [],
             progress = [(None, ''[yellow]Waiting for generation...'')]\<rparr>"
  have a: "wait_for_generation e generation_id timeout t0 =
        (Inl (''Generation timed out after '' @ str_int timeout @ '' seconds''),
         \<lparr>now = t0, requests = [], sleeps = [],
          progress = [(None, ''[yellow]Waiting for generation...''),
                      (None, ''[red]Generation timed out!'')]\<rparr>)" if "timeout \<le> 0"
  proof -
    from that have "\<not> now ?w - t0 < real_of_int timeout" by simp
    from generation_loop_timeout [OF this] show ?thesis
      by (simp add: wait_for_generation_def progress_update_def)
  qed
  have b: "requests (snd (wait_for_generation e generation_id timeout t0)) \<noteq> []" if "0 < timeout"
  proof -
    from that have c: "now ?w - t0 < real_of_int timeout" by simp
    have "requests (snd (generation_loop e generation_id timeout t0 ?w)) \<noteq> []"
    proof (cases "generation_body e generation_id t0 ?w")
      case (Pair r w1)
      have w1: "requests w1 \<noteq> []"
        using Pair by (rule generation_body_requests_nonempty)
      show ?thesis
      proof (cases r)
        case None
        with Pair c have "generation_loop e generation_id timeout t0 ?w
            = generation_loop e generation_id timeout t0 w1"
          by (simp add: generation_loop_continue)
        with generation_loop_requests [where w = w1 and e = e and g = generation_id
            and T = timeout and st = t0] w1
        show ?thesis by auto
      next
        case (Some g)
        with Pair c have "generation_loop e generation_id timeout t0 ?w = (Inr g, w1)"
          by (simp add: generation_loop_return)
        with w1 show ?thesis by simp
      qed
    qed
    then show ?thesis by (simp add: wait_for_generation_def)
  qed
  from a b show ?thesis by (cases "0 < timeout") auto
qed

theorem wait_for_generation_nonpositive_timeout_witness:
  "(0::int) \<le> 0 \<and>
   wait_for_generation \<lparr>server = \<lambda>url i. Inr [''status'' \<mapsto> Str ''COMPLETE'']\<rparr> ''abc'' 0 0 =
     (Inl ''Generation timed out after 0 seconds'',
      \<lparr>now = 0, requests = [], sleeps = [],
       progress = [(None, ''[yellow]Waiting for generation...''),
                   (None, ''[red]Generation timed out!'')]\<rparr>)"
  using wait_for_generation_nonpositive_timeout
    [where timeout = 0 and e = "\<lparr>server = \<lambda>url i. Inr [''status'' \<mapsto> Str ''COMPLETE'']\<rparr>"
       and generation_id = "''abc''" and ?t0.0 = 0]
  by (simp add: str_int_def str_nat.simps digit_def)

end
